theory Spec2Isabelle
  imports Main
begin

section \<open>The Book entity\<close>

text \<open>
  The mapped class of \<^verbatim>\<open>main.py\<close>: an integer primary key and three nullable text
  columns. A Python attribute holding \<^verbatim>\<open>None\<close> (a SQL NULL) is \<open>None\<close>; the primary key
  of an object built by \<^verbatim>\<open>Book(title=..., author=..., genre=...)\<close> is \<open>None\<close> until the
  INSERT assigns it. The program never sets a key itself, so an instance with a key is
  one that a query returned or a flush stored.
\<close>

record Book =
  id_col :: "int option"
  title :: "string option"
  author :: "string option"
  genre :: "string option"

section \<open>Exceptions and storage faults\<close>

text \<open>
  Every raise of the program is a value: an operation returns \<open>Inl e\<close> where Python
  propagates the exception \<open>e\<close>, and \<open>Inr v\<close> where it returns \<open>v\<close>.
\<close>

datatype exn =
    OperationalError
  | OverflowError
  | CompileError
  | InvalidRequestError
  | UnmappedInstanceError
  | MultipleResultsFound
  | TypeError

text \<open>
  What the storage engine does to one repository call is not decided by the program;
  it is a parameter of every operation. \<open>StatementFault\<close>: the engine raises on a
  statement (the SELECT or UPDATE of the body, the INSERT or DELETE of the flush);
  \<open>CommitFault\<close>: it raises on the COMMIT itself.
\<close>

datatype fault = NoFault | StatementFault | CommitFault

section \<open>The session: one unit of work\<close>

text \<open>
  The value bound by \<^verbatim>\<open>async with self.session.begin() as session\<close>. \<open>persisted\<close> is
  the table as committed when the scope was entered, \<open>rows\<close> the table as the
  transaction sees it, \<open>new\<close> and \<open>deleted\<close> the objects registered by
  \<^verbatim>\<open>session.add\<close> and \<^verbatim>\<open>session.delete\<close>, written at the flush. Each new object is
  kept with the key the engine would draw for it (see \<open>next_id\<close>).
\<close>

record session =
  persisted :: "Book list"
  rows :: "Book list"
  new :: "(Book \<times> int) list"
  deleted :: "Book list"
  is_active :: bool

text \<open>
  The key column is SQLite's 64-bit INTEGER, a Python \<^verbatim>\<open>int\<close> is unbounded: binding an
  integer outside the range to a statement raises \<^verbatim>\<open>OverflowError\<close>.
\<close>

definition int64 :: "int \<Rightarrow> bool" where
  "int64 i = (- 9223372036854775808 \<le> i \<and> i \<le> 9223372036854775807)"

definition ids :: "Book list \<Rightarrow> int list" where
  "ids tbl = concat (map (\<lambda>r. case id_col r of None \<Rightarrow> [] | Some i \<Rightarrow> [i]) tbl)"

text \<open>
  The key of an INSERT without one: 1 in an empty table, else one more than the
  largest key in the table while that is a key of the column. Once the largest key is
  in use the engine draws positive keys at random: \<open>k\<close> is the key it settles on, and
  when \<open>k\<close> is no free positive key the engine has given up (\<open>None\<close>: the INSERT fails,
  the database is full). The draw is the engine's, so it is a parameter.
\<close>

definition next_id :: "int \<Rightarrow> Book list \<Rightarrow> int option" where
  "next_id k tbl =
     (case ids tbl of
        [] \<Rightarrow> Some 1
      | i # is \<Rightarrow>
          (let m = fold max is i in
           if int64 (m + 1) then Some (m + 1)
           else if 0 < k \<and> int64 k \<and> k \<notin> set (ids tbl) then Some k
           else None))"

text \<open>
  The INSERT of a new object at the flush. An object that has a key is stored
  already, and the flush writes nothing for it.
\<close>

definition insert_row :: "Book \<times> int \<Rightarrow> Book list \<Rightarrow> exn + Book list" where
  "insert_row bk tbl =
     (case bk of
        (b, k) \<Rightarrow>
          (case id_col b of
             None \<Rightarrow>
               (case next_id k tbl of
                  None \<Rightarrow> Inl OperationalError
                | Some n \<Rightarrow> Inr (tbl @ [b\<lparr>id_col := Some n\<rparr>]))
           | Some i \<Rightarrow> Inr tbl))"

fun insert_rows :: "(Book \<times> int) list \<Rightarrow> Book list \<Rightarrow> exn + Book list" where
  "insert_rows [] tbl = Inr tbl"
| "insert_rows (bk # bks) tbl =
     (case insert_row bk tbl of Inl e \<Rightarrow> Inl e | Inr tbl' \<Rightarrow> insert_rows bks tbl')"

text \<open>DELETE FROM books WHERE id = ?, with the key of the object; no row matched is no error.\<close>

definition delete_row :: "Book \<Rightarrow> Book list \<Rightarrow> Book list" where
  "delete_row b tbl = filter (\<lambda>r. id_col r \<noteq> id_col b) tbl"

definition bindable :: "Book \<Rightarrow> bool" where
  "bindable b = (case id_col b of None \<Rightarrow> True | Some i \<Rightarrow> int64 i)"

definition flush :: "fault \<Rightarrow> session \<Rightarrow> exn + Book list" where
  "flush f s =
     (if new s = [] \<and> deleted s = [] then Inr (rows s)
      else if f = StatementFault then Inl OperationalError
      else case insert_rows (new s) (rows s) of
             Inl e \<Rightarrow> Inl e
           | Inr tbl \<Rightarrow>
               if \<not> list_all bindable (deleted s) then Inl OverflowError
               else Inr (fold delete_row (deleted s) tbl))"

text \<open>\<^verbatim>\<open>session.add(book)\<close>; \<open>k\<close> is the key the engine would draw for the book.\<close>

definition add :: "session \<Rightarrow> Book \<Rightarrow> int \<Rightarrow> session" where
  "add s b k = s\<lparr>new := new s @ [(b, k)]\<rparr>"

text \<open>
  \<^verbatim>\<open>session.delete(book)\<close>: \<^verbatim>\<open>None\<close> is no mapped instance, and an instance without a key
  was never stored.
\<close>

definition delete :: "session \<Rightarrow> Book option \<Rightarrow> exn + session" where
  "delete s bo =
     (case bo of
        None \<Rightarrow> Inl UnmappedInstanceError
      | Some b \<Rightarrow>
          (case id_col b of
             None \<Rightarrow> Inl InvalidRequestError
           | Some _ \<Rightarrow> Inr (s\<lparr>deleted := deleted s @ [b]\<rparr>)))"

definition rollback :: "session \<Rightarrow> session" where
  "rollback s = s\<lparr>rows := persisted s, new := [], deleted := [], is_active := False\<rparr>"

text \<open>A SELECT with no ORDER BY reads the table in the order of the keys.\<close>

definition rowid :: "Book \<Rightarrow> int" where
  "rowid r = (case id_col r of None \<Rightarrow> 0 | Some i \<Rightarrow> i)"

text \<open>
  \<^verbatim>\<open>session.stream(select(Book).where(...))\<close> followed by \<^verbatim>\<open>scalars()\<close>; \<open>binds\<close> are
  the integers bound to the statement.
\<close>

definition stream :: "fault \<Rightarrow> session \<Rightarrow> int list \<Rightarrow> (Book \<Rightarrow> bool) \<Rightarrow> exn + Book list" where
  "stream f s binds wh =
     (if f = StatementFault then Inl OperationalError
      else if \<not> list_all int64 binds then Inl OverflowError
      else Inr (filter wh (sort_key rowid (rows s))))"

definition one_or_none :: "Book list \<Rightarrow> exn + Book option" where
  "one_or_none rs =
     (case rs of [] \<Rightarrow> Inr None | [b] \<Rightarrow> Inr (Some b) | _ \<Rightarrow> Inl MultipleResultsFound)"

text \<open>
  The keyword arguments \<^verbatim>\<open>**fields\<close> are a dict from attribute name to the new value,
  kept in the order they were passed.
\<close>

type_synonym fields = "(string \<times> string option) list"

definition columns :: "string list" where
  "columns = [''title'', ''author'', ''genre'']"

definition set_values :: "fields \<Rightarrow> Book \<Rightarrow> Book" where
  "set_values fs r =
     r\<lparr>title := (case map_of fs ''title'' of None \<Rightarrow> title r | Some v \<Rightarrow> v),
       author := (case map_of fs ''author'' of None \<Rightarrow> author r | Some v \<Rightarrow> v),
       genre := (case map_of fs ''genre'' of None \<Rightarrow> genre r | Some v \<Rightarrow> v)\<rparr>"

text \<open>
  \<^verbatim>\<open>session.execute(update(Book).where(Book.id == id).values(fields))\<close>: one bulk
  UPDATE. A key that names no column, an empty SET clause, and an id outside the range
  of the column are refused before any row is touched. (The key \<^verbatim>\<open>id\<close> never arrives
  here: see \<open>update_book\<close>.)
\<close>

definition execute_update :: "fault \<Rightarrow> session \<Rightarrow> int \<Rightarrow> fields \<Rightarrow> exn + session" where
  "execute_update f s i fs =
     (if f = StatementFault then Inl OperationalError
      else if \<not> list_all (\<lambda>k. k \<in> set columns) (map fst fs) then Inl CompileError
      else if fs = [] then Inl OperationalError
      else if \<not> int64 i then Inl OverflowError
      else Inr (s\<lparr>rows := map (\<lambda>r. if id_col r = Some i then set_values fs r else r) (rows s)\<rparr>))"

text \<open>
  The scope \<^verbatim>\<open>async with self.session.begin() as session: body\<close>. An exception of
  the body, of the flush or of the COMMIT rolls the transaction back and propagates;
  a session the body has rolled back itself is closed without a commit.
\<close>

definition session_begin ::
  "fault \<Rightarrow> Book list \<Rightarrow> (session \<Rightarrow> exn + 'a \<times> session) \<Rightarrow> (exn + 'a) \<times> Book list" where
  "session_begin f db body =
     (case body \<lparr>persisted = db, rows = db, new = [], deleted = [], is_active = True\<rparr> of
        Inl e \<Rightarrow> (Inl e, db)
      | Inr (x, s) \<Rightarrow>
          if \<not> is_active s then (Inr x, db)
          else (case flush f s of
                  Inl e \<Rightarrow> (Inl e, db)
                | Inr tbl \<Rightarrow> if f = CommitFault then (Inl OperationalError, db) else (Inr x, tbl)))"

section \<open>BookRepository\<close>

text \<open>
  Each operation takes the fault the engine has in store for the call and the
  persisted table, and returns what the caller sees (a value or an exception) with the
  table the call leaves behind. \<open>create_book\<close> takes the engine's key draw as well.
\<close>

definition create_book ::
  "fault \<Rightarrow> int \<Rightarrow> Book list \<Rightarrow> string \<Rightarrow> string \<Rightarrow> string \<Rightarrow> (exn + bool) \<times> Book list" where
  "create_book f k db t a g =
     (let book = \<lparr>id_col = None, title = Some t, author = Some a, genre = Some g\<rparr> in
      case session_begin f db (\<lambda>s. Inr ((), add s book k)) of
        (Inr _, db') \<Rightarrow> (Inr True, db')
      | (Inl _, db') \<Rightarrow>
          (case session_begin f db' (\<lambda>s. Inr ((), rollback s)) of
             (Inr _, db'') \<Rightarrow> (Inr False, db'')
           | (Inl e, db'') \<Rightarrow> (Inl e, db'')))"

definition get_books :: "fault \<Rightarrow> Book list \<Rightarrow> (exn + Book list) \<times> Book list" where
  "get_books f db =
     session_begin f db
       (\<lambda>s. case stream f s [] (\<lambda>r. True) of Inl e \<Rightarrow> Inl e | Inr books \<Rightarrow> Inr (books, s))"

definition get_book_by_id :: "fault \<Rightarrow> Book list \<Rightarrow> int \<Rightarrow> (exn + Book option) \<times> Book list" where
  "get_book_by_id f db i =
     session_begin f db
       (\<lambda>s. case stream f s [i] (\<lambda>r. id_col r = Some i) of
              Inl e \<Rightarrow> Inl e
            | Inr result \<Rightarrow>
                (case one_or_none result of Inl e \<Rightarrow> Inl e | Inr book \<Rightarrow> Inr (book, s)))"

text \<open>
  \<^verbatim>\<open>update_book(self, id, **fields)\<close>: a keyword \<^verbatim>\<open>id\<close> or \<^verbatim>\<open>self\<close> collides with
  the named parameters, and the call raises before the body is entered.
\<close>

definition keyword_clash :: "fields \<Rightarrow> bool" where
  "keyword_clash fs = (''id'' \<in> set (map fst fs) \<or> ''self'' \<in> set (map fst fs))"

definition update_book :: "fault \<Rightarrow> Book list \<Rightarrow> int \<Rightarrow> fields \<Rightarrow> (exn + bool) \<times> Book list" where
  "update_book f db i fs =
     (if keyword_clash fs then (Inl TypeError, db)
      else
        case session_begin f db
               (\<lambda>s. case execute_update f s i fs of Inl e \<Rightarrow> Inl e | Inr s' \<Rightarrow> Inr ((), s')) of
          (Inr _, db') \<Rightarrow> (Inr True, db')
        | (Inl _, db') \<Rightarrow>
            (case session_begin f db' (\<lambda>s. Inr ((), rollback s)) of
               (Inr _, db'') \<Rightarrow> (Inr False, db'')
             | (Inl e, db'') \<Rightarrow> (Inl e, db'')))"

definition delete_book :: "fault \<Rightarrow> Book list \<Rightarrow> Book option \<Rightarrow> (exn + bool) \<times> Book list" where
  "delete_book f db book =
     (case session_begin f db
             (\<lambda>s. case delete s book of Inl e \<Rightarrow> Inl e | Inr s' \<Rightarrow> Inr ((), s')) of
        (Inr _, db') \<Rightarrow> (Inr True, db')
      | (Inl e, db') \<Rightarrow> (Inl e, db'))"

section \<open>The routes of Api\<close>

text \<open>
  The route functions of \<^verbatim>\<open>Api.api\<close> carry the names of the repository methods they
  call; here they are prefixed. A query parameter that the request leaves out takes its
  default \<^verbatim>\<open>None\<close>. The two repository calls of the delete route are two operations,
  each with the fault the engine has in store for it.
\<close>

definition api_update_book ::
  "fault \<Rightarrow> Book list \<Rightarrow> int \<Rightarrow> string option \<Rightarrow> string option \<Rightarrow> string option
     \<Rightarrow> (exn + bool) \<times> Book list" where
  "api_update_book f db i t a g =
     (let fields = [(''title'', t), (''author'', a), (''genre'', g)] in update_book f db i fields)"

definition api_delete_book ::
  "fault \<Rightarrow> fault \<Rightarrow> Book list \<Rightarrow> int \<Rightarrow> (exn + unit) \<times> Book list" where
  "api_delete_book f1 f2 db i =
     (case get_book_by_id f1 db i of
        (Inl e, db1) \<Rightarrow> (Inl e, db1)
      | (Inr book, db1) \<Rightarrow>
          (case delete_book f2 db1 book of
             (Inl e, db2) \<Rightarrow> (Inl e, db2)
           | (Inr _, db2) \<Rightarrow> (Inr (), db2)))"

section \<open>Construction, start and shutdown\<close>

text \<open>
  \<^verbatim>\<open>create_async_engine\<close> returns a new engine at every call. The process counts the
  engines created so far, the count being the handle of the next one, and logs which
  handle ran \<^verbatim>\<open>create_all\<close>, which served a CRUD request and which was disposed.
\<close>

record BookRepository =
  semaphore :: nat
  engine :: nat

record process =
  engines :: nat
  schema_on :: "nat list"
  used :: "nat list"
  disposed :: "nat list"

definition BookRepository_init :: "process \<Rightarrow> BookRepository \<times> process" where
  "BookRepository_init p =
     (\<lparr>semaphore = 50, engine = engines p\<rparr>, p\<lparr>engines := engines p + 1\<rparr>)"

definition create_table :: "BookRepository \<Rightarrow> process \<Rightarrow> process" where
  "create_table repo p = p\<lparr>schema_on := schema_on p @ [engine repo]\<rparr>"

definition close :: "BookRepository \<Rightarrow> process \<Rightarrow> process" where
  "close repo p = p\<lparr>disposed := disposed p @ [engine repo]\<rparr>"

definition Api_init :: "process \<Rightarrow> BookRepository \<times> process" where
  "Api_init p = BookRepository_init p"

text \<open>A route calls a method of \<^verbatim>\<open>self.repo\<close>, whose sessions are bound to its engine.\<close>

definition request :: "BookRepository \<Rightarrow> process \<Rightarrow> process" where
  "request repo p = p\<lparr>used := used p @ [engine repo]\<rparr>"

text \<open>The two halves of \<^verbatim>\<open>lifespan\<close>, before and after its \<^verbatim>\<open>yield\<close>.\<close>

definition lifespan_startup :: "process \<Rightarrow> process" where
  "lifespan_startup p = (case BookRepository_init p of (repo, p') \<Rightarrow> create_table repo p')"

definition lifespan_shutdown :: "process \<Rightarrow> process" where
  "lifespan_shutdown p = (case BookRepository_init p of (repo, p') \<Rightarrow> close repo p')"

text \<open>
  The module is imported (\<^verbatim>\<open>Api(app).api()\<close> builds the repository of the routes), the
  server enters the lifespan, serves \<open>n\<close> requests and leaves the lifespan.
\<close>

definition process_lifetime :: "nat \<Rightarrow> BookRepository \<times> process" where
  "process_lifetime n =
     (case Api_init \<lparr>engines = 0, schema_on = [], used = [], disposed = []\<rparr> of
        (repo, p) \<Rightarrow> (repo, lifespan_shutdown ((request repo ^^ n) (lifespan_startup p))))"

section \<open>Concurrent callers and the semaphore\<close>

datatype call =
    CreateBook string string string
  | GetBooks
  | GetBookById int
  | UpdateBook int fields
  | DeleteBook "Book option"

datatype retval = RBool bool | RBooks "Book list" | RBook "Book option"

definition returning ::
  "('a \<Rightarrow> retval) \<Rightarrow> (exn + 'a) \<times> Book list \<Rightarrow> (exn + retval) \<times> Book list" where
  "returning k res = (case res of (Inl e, db) \<Rightarrow> (Inl e, db) | (Inr v, db) \<Rightarrow> (Inr (k v), db))"

fun run_call :: "fault \<Rightarrow> int \<Rightarrow> Book list \<Rightarrow> call \<Rightarrow> (exn + retval) \<times> Book list" where
  "run_call f k db (CreateBook t a g) = returning RBool (create_book f k db t a g)"
| "run_call f k db GetBooks = returning RBooks (get_books f db)"
| "run_call f k db (GetBookById i) = returning RBook (get_book_by_id f db i)"
| "run_call f k db (UpdateBook i fs) = returning RBool (update_book f db i fs)"
| "run_call f k db (DeleteBook b) = returning RBool (delete_book f db b)"

fun rejected :: "call \<Rightarrow> bool" where
  "rejected (UpdateBook i fs) = keyword_clash fs"
| "rejected _ = False"

text \<open>
  The state shared by the tasks of the event loop: the counter of the semaphore, the
  table, and the operations in flight. An operation is \<open>waiting\<close> from its call until
  \<^verbatim>\<open>async with self.semaphore\<close> lets it in, \<open>running\<close> inside that block, \<open>finished\<close>
  once it has left it, by a return or by an exception.
\<close>

text \<open>
  The counter of \<^verbatim>\<open>asyncio.Semaphore\<close>: \<^verbatim>\<open>acquire\<close> returns only when the counter is
  positive and takes one from it (\<open>None\<close>: the caller stays suspended); \<^verbatim>\<open>release\<close>
  adds one.
\<close>

definition acquire :: "nat \<Rightarrow> nat option" where
  "acquire v = (if v = 0 then None else Some (v - 1))"

definition release :: "nat \<Rightarrow> nat" where
  "release v = v + 1"

record 'tid system =
  permits :: nat
  table :: "Book list"
  waiting :: "('tid \<times> call) list"
  running :: "('tid \<times> call) list"
  finished :: "('tid \<times> (exn + retval)) list"

datatype 'tid event = Call 'tid call | Acquire 'tid | Exit 'tid fault int

text \<open>
  One step of the event loop; \<open>None\<close> where the event cannot happen. \<open>Acquire\<close> is the
  entry of an operation into its \<^verbatim>\<open>async with self.semaphore\<close> block; \<open>Exit\<close> is the end
  of the block, which releases whatever the body did: a return, a \<open>False\<close> or an
  exception. The body's work on the table is taken at the exit, with the fault and the
  key draw the engine had for it.
\<close>

fun step :: "'tid system \<Rightarrow> 'tid event \<Rightarrow> 'tid system option" where
  "step s (Call t c) =
     (if rejected c then Some (s\<lparr>finished := finished s @ [(t, Inl TypeError)]\<rparr>)
      else Some (s\<lparr>waiting := waiting s @ [(t, c)]\<rparr>))"
| "step s (Acquire t) =
     (case map_of (waiting s) t of
        None \<Rightarrow> None
      | Some c \<Rightarrow>
          (case acquire (permits s) of
             None \<Rightarrow> None
           | Some v \<Rightarrow>
               Some (s\<lparr>permits := v,
                        waiting := remove1 (t, c) (waiting s),
                        running := running s @ [(t, c)]\<rparr>)))"
| "step s (Exit t f k) =
     (case map_of (running s) t of
        None \<Rightarrow> None
      | Some c \<Rightarrow>
          (case run_call f k (table s) c of
             (r, db') \<Rightarrow>
               Some (s\<lparr>permits := release (permits s),
                        table := db',
                        running := remove1 (t, c) (running s),
                        finished := finished s @ [(t, r)]\<rparr>)))"

fun exec :: "'tid system \<Rightarrow> 'tid event list \<Rightarrow> 'tid system option" where
  "exec s [] = Some s"
| "exec s (e # es) = (case step s e of None \<Rightarrow> None | Some s' \<Rightarrow> exec s' es)"

definition init :: "BookRepository \<Rightarrow> Book list \<Rightarrow> 'tid system" where
  "init repo db =
     \<lparr>permits = semaphore repo, table = db, waiting = [], running = [], finished = []\<rparr>"

section \<open>A stored row used in the examples\<close>

abbreviation dune :: Book where
  "dune \<equiv> \<lparr>id_col = Some 1, title = Some ''Dune'', author = Some ''Herbert'', genre = Some ''SciFi''\<rparr>"

section \<open>Facts about the storage model\<close>

lemma session_begin_rollback:
  "session_begin f db (\<lambda>s. Inr ((), rollback s)) = (Inr (), db)"
  by (simp add: session_begin_def rollback_def)

lemma fold_max_ge: "(x::int) \<le> fold max xs x \<and> (\<forall>y \<in> set xs. y \<le> fold max xs x)"
proof (induction xs arbitrary: x)
  case Nil
  then show ?case by simp
next
  case (Cons a xs)
  have "max a x \<le> fold max xs (max a x)" using Cons.IH by blast
  then show ?case using Cons.IH [of "max a x"] by auto
qed

lemma next_id_Some:
  assumes "next_id k db = Some n"
  shows "n \<notin> set (ids db) \<and> int64 n"
proof (cases "ids db")
  case Nil
  then show ?thesis using assms by (auto simp: next_id_def int64_def)
next
  case (Cons i "is")
  then show ?thesis
    using assms fold_max_ge [of i "is"]
    by (auto simp: next_id_def Let_def split: if_splits)
qed

lemma filter_id_absent: "i \<notin> set (ids db) \<Longrightarrow> filter (\<lambda>r. id_col r = Some i) db = []"
  by (induction db) (auto simp: ids_def split: option.splits)

lemma sort_key_same:
  assumes "\<forall>x \<in> set ys. f x = c"
  shows "sort_key f ys = ys"
proof -
  have "filter (\<lambda>y. f y = c) (sort_key f ys) = sort_key f ys"
    using assms by simp
  moreover have "filter (\<lambda>y. f y = c) ys = ys"
    using assms by simp
  ultimately show ?thesis
    using sort_key_stable [of f c ys] by simp
qed

lemma filter_id_sorted:
  "filter (\<lambda>r. id_col r = Some i) (sort_key rowid db) = filter (\<lambda>r. id_col r = Some i) db"
proof -
  have "\<forall>r \<in> set (filter (\<lambda>r. id_col r = Some i) db). rowid r = i"
    by (simp add: rowid_def)
  then have "sort_key rowid (filter (\<lambda>r. id_col r = Some i) db) = filter (\<lambda>r. id_col r = Some i) db"
    by (rule sort_key_same)
  then show ?thesis
    by (simp add: filter_sort)
qed

lemma create_book_eq:
  "create_book f k db t a g =
     (if f = NoFault
      then (case next_id k db of
              Some n \<Rightarrow>
                (Inr True,
                 db @ [\<lparr>id_col = Some n, title = Some t, author = Some a, genre = Some g\<rparr>])
            | None \<Rightarrow> (Inr False, db))
      else (Inr False, db))"
  by (cases f; cases "next_id k db")
     (simp_all add: create_book_def session_begin_rollback session_begin_def add_def flush_def
        insert_row_def)

lemma get_NoFault:
  "int64 i \<Longrightarrow>
   get_book_by_id NoFault db i =
     (case one_or_none (filter (\<lambda>r. id_col r = Some i) db) of
        Inl e \<Rightarrow> (Inl e, db)
      | Inr b \<Rightarrow> (Inr b, db))"
  by (simp add: get_book_by_id_def session_begin_def stream_def flush_def filter_id_sorted
      split: sum.splits)

lemma get_overflow: "\<not> int64 i \<Longrightarrow> get_book_by_id NoFault db i = (Inl OverflowError, db)"
  by (simp add: get_book_by_id_def session_begin_def stream_def)

lemma get_Some_filter:
  assumes "get_book_by_id NoFault db n = (Inr (Some b), db')"
  shows "int64 n \<and> filter (\<lambda>r. id_col r = Some n) db = [b]"
proof (cases "int64 n")
  case True
  then show ?thesis
    using assms by (auto simp: get_NoFault one_or_none_def split: list.splits sum.splits)
next
  case False
  then show ?thesis using assms by (simp add: get_overflow)
qed

lemma update_NoFault:
  assumes "fs \<noteq> []" and "list_all (\<lambda>k. k \<in> set columns) (map fst fs)" and "int64 i"
  shows "update_book NoFault db i fs
     = (Inr True, map (\<lambda>r. if id_col r = Some i then set_values fs r else r) db)"
proof -
  have "\<not> keyword_clash fs"
    using assms(2) by (auto simp: keyword_clash_def list_all_iff columns_def)
  then show ?thesis
    using assms
    by (simp add: update_book_def session_begin_def execute_update_def flush_def)
qed

lemma update_raises:
  assumes "\<not> keyword_clash fs" and "execute_update f s0 i fs = Inl e"
    and "s0 = \<lparr>persisted = db, rows = db, new = [], deleted = [], is_active = True\<rparr>"
  shows "update_book f db i fs = (Inr False, db)"
  using assms by (simp add: update_book_def session_begin_rollback session_begin_def)

lemma update_fault:
  assumes "f \<noteq> NoFault" and "\<not> keyword_clash fs"
  shows "update_book f db i fs = (Inr False, db)"
  using assms
  by (cases f)
     (simp_all add: update_book_def session_begin_rollback session_begin_def execute_update_def
        flush_def)

lemma delete_NoFault:
  "id_col b = Some n \<Longrightarrow> int64 n \<Longrightarrow>
   delete_book NoFault db (Some b) = (Inr True, filter (\<lambda>r. id_col r \<noteq> Some n) db)"
  by (simp add: delete_book_def session_begin_def delete_def flush_def delete_row_def
      bindable_def)

lemma delete_None: "delete_book f db None = (Inl UnmappedInstanceError, db)"
  by (simp add: delete_book_def session_begin_def delete_def)

section \<open>Lookup\<close>

text \<open>
  C8. For every id in the range of the key column that matches no stored row, with the
  engine answering, \<open>get_book_by_id\<close> returns the absent book as a value: no exception
  is raised, and the table is as it was.
\<close>

theorem get_book_by_id_absent:
  assumes "int64 i" and "i \<notin> set (ids db)"
  shows "get_book_by_id NoFault db i = (Inr None, db)"
  using filter_id_absent [OF assms(2)] assms(1) by (simp add: get_NoFault one_or_none_def)

theorem get_book_by_id_absent_witness:
  "int64 7 \<and> 7 \<notin> set (ids [dune]) \<and> get_book_by_id NoFault [dune] 7 = (Inr None, [dune])"
proof -
  have h1: "int64 7" by (simp add: int64_def)
  have h2: "7 \<notin> set (ids [dune])" by (simp add: ids_def)
  show ?thesis using h1 h2 get_book_by_id_absent [OF h1 h2] by simp
qed

text \<open>
  Without the bound the statement fails: 2^63 matches no row of the table, and the
  lookup raises at the bind instead of returning the absent book.
\<close>

theorem get_book_by_id_absent_counterexample:
  "9223372036854775808 \<notin> set (ids [dune]) \<and>
   get_book_by_id NoFault [dune] 9223372036854775808 = (Inl OverflowError, [dune])"
  by (simp add: ids_def get_overflow int64_def)

section \<open>Creation\<close>

text \<open>
  C4. For every title, author and genre: when the engine raises nothing and has a key
  for the row, the scope of \<open>create_book\<close> commits, the book is appended to the table
  under that key, and the result is \<open>True\<close>; when the engine raises, on the INSERT
  (a fault, or no free key left) or on the COMMIT, the result is \<open>False\<close> and the table
  is the one before the call. No exception leaves \<open>create_book\<close>, and whenever it
  returns \<open>False\<close> the table is unchanged.
\<close>

theorem create_book_commits_or_rolls_back:
  "create_book f k db t a g =
     (if f = NoFault
      then (case next_id k db of
              Some n \<Rightarrow>
                (Inr True,
                 db @ [\<lparr>id_col = Some n, title = Some t, author = Some a, genre = Some g\<rparr>])
            | None \<Rightarrow> (Inr False, db))
      else (Inr False, db)) \<and>
   (\<forall>e. fst (create_book f k db t a g) \<noteq> Inl e) \<and>
   (fst (create_book f k db t a g) = Inr False \<longrightarrow> snd (create_book f k db t a g) = db)"
  by (simp add: create_book_eq split: option.splits)

theorem create_book_commits_or_rolls_back_witness:
  "create_book CommitFault 0 [dune] ''Emma'' ''Austen'' ''Novel'' = (Inr False, [dune]) \<and>
   fst (create_book CommitFault 0 [dune] ''Emma'' ''Austen'' ''Novel'') = Inr False \<and>
   snd (create_book CommitFault 0 [dune] ''Emma'' ''Austen'' ''Novel'') = [dune]"
  using create_book_commits_or_rolls_back
    [of CommitFault 0 "[dune]" "''Emma''" "''Austen''" "''Novel''"]
  by simp

text \<open>
  C7. When \<open>create_book\<close> has returned \<open>True\<close>, the table holds one more row, the
  created book under the key \<open>n\<close> the engine gave it, and \<open>get_book_by_id\<close> on \<open>n\<close> returns
  a book with that key and the title, author and genre that were passed.
\<close>

theorem create_then_get:
  assumes "create_book f k db t a g = (Inr True, db')"
  shows "\<exists>n. db' = db @ [\<lparr>id_col = Some n, title = Some t, author = Some a, genre = Some g\<rparr>] \<and>
    get_book_by_id NoFault db' n
      = (Inr (Some \<lparr>id_col = Some n, title = Some t, author = Some a, genre = Some g\<rparr>), db')"
proof -
  obtain n where n: "next_id k db = Some n"
    and db': "db' = db @ [\<lparr>id_col = Some n, title = Some t, author = Some a, genre = Some g\<rparr>]"
    using assms by (auto simp: create_book_eq split: if_splits option.splits)
  let ?b = "\<lparr>id_col = Some n, title = Some t, author = Some a, genre = Some g\<rparr>"
  have fresh: "n \<notin> set (ids db)" and rng: "int64 n"
    using next_id_Some [OF n] by simp_all
  have "filter (\<lambda>r. id_col r = Some n) db' = [?b]"
    using filter_id_absent [OF fresh] by (simp add: db')
  then have "get_book_by_id NoFault db' n = (Inr (Some ?b), db')"
    using rng by (simp add: get_NoFault one_or_none_def)
  with db' show ?thesis by blast
qed

theorem create_then_get_witness:
  "create_book NoFault 0 [] ''Dune'' ''Herbert'' ''SciFi'' = (Inr True, [dune]) \<and>
   (\<exists>n. [dune] = [] @ [\<lparr>id_col = Some n, title = Some ''Dune'', author = Some ''Herbert'',
                        genre = Some ''SciFi''\<rparr>] \<and>
     get_book_by_id NoFault [dune] n
       = (Inr (Some \<lparr>id_col = Some n, title = Some ''Dune'', author = Some ''Herbert'',
                      genre = Some ''SciFi''\<rparr>), [dune]))"
proof -
  have h: "create_book NoFault 0 [] ''Dune'' ''Herbert'' ''SciFi'' = (Inr True, [dune])"
    by (simp add: create_book_eq next_id_def ids_def)
  show ?thesis using h create_then_get [OF h] by simp
qed

section \<open>Update\<close>

text \<open>
  C2. Let \<open>b\<close> be the stored book that \<open>get_book_by_id\<close> returns for \<open>n\<close>, and \<open>k\<close> one of
  the attributes title, author, genre. With the engine answering, \<open>update_book\<close> with the
  single field \<open>k\<close> set to \<open>v\<close> returns \<open>True\<close>, and \<open>get_book_by_id\<close> on \<open>n\<close> then returns a
  book with the same key in which \<open>k\<close> is \<open>v\<close> and the other two attributes are those of
  \<open>b\<close>.
\<close>

theorem update_then_get:
  assumes "get_book_by_id NoFault db n = (Inr (Some b), db)"
    and "k \<in> set columns"
  shows "\<exists>db' b'. update_book NoFault db n [(k, v)] = (Inr True, db') \<and>
     get_book_by_id NoFault db' n = (Inr (Some b'), db') \<and>
     id_col b' = id_col b \<and>
     title b' = (if k = ''title'' then v else title b) \<and>
     author b' = (if k = ''author'' then v else author b) \<and>
     genre b' = (if k = ''genre'' then v else genre b)"
proof -
  let ?P = "\<lambda>r. id_col r = Some n"
  let ?upd = "\<lambda>r. if id_col r = Some n then set_values [(k, v)] r else r"
  have rng: "int64 n" and one: "filter ?P db = [b]"
    using get_Some_filter [OF assms(1)] by simp_all
  have "filter ?P (map ?upd db) = map ?upd (filter ?P db)"
    by (induction db) (simp_all add: set_values_def)
  then have f': "filter ?P (map ?upd db) = [?upd b]"
    by (simp add: one)
  have "b \<in> set (filter ?P db)"
    by (simp add: one)
  then have bn: "id_col b = Some n"
    by simp
  have u: "update_book NoFault db n [(k, v)] = (Inr True, map ?upd db)"
    using assms(2) rng by (simp add: update_NoFault)
  have g: "get_book_by_id NoFault (map ?upd db) n
             = (Inr (Some (set_values [(k, v)] b)), map ?upd db)"
    using f' bn rng by (simp add: get_NoFault one_or_none_def)
  show ?thesis
    using u g assms(2) by (auto simp: set_values_def columns_def)
qed

theorem update_then_get_witness:
  "get_book_by_id NoFault [dune] 1 = (Inr (Some dune), [dune]) \<and>
   ''genre'' \<in> set columns \<and>
   (\<exists>db' b'. update_book NoFault [dune] 1 [(''genre'', Some ''Epic'')] = (Inr True, db') \<and>
      get_book_by_id NoFault db' 1 = (Inr (Some b'), db') \<and>
      id_col b' = Some 1 \<and> title b' = Some ''Dune'' \<and> author b' = Some ''Herbert'' \<and>
      genre b' = Some ''Epic'')"
proof -
  have h1: "get_book_by_id NoFault [dune] 1 = (Inr (Some dune), [dune])"
    by (simp add: get_NoFault one_or_none_def int64_def)
  have h2: "''genre'' \<in> set columns"
    by (simp add: columns_def)
  show ?thesis
    using h1 h2 update_then_get [OF h1 h2, of "Some ''Epic''"] by simp
qed

text \<open>
  C5. Let \<open>n\<close> be in the range of the key column and match no stored row, and \<open>fs\<close> be a
  non-empty mapping whose keys are attributes of Book. With the engine answering, the
  one UPDATE that \<open>update_book\<close> executes, filtered by \<open>n\<close>, succeeds and leaves the rows
  of its session as they were; \<open>update_book\<close> leaves the table as it was and returns
  \<open>True\<close> all the same.
\<close>

theorem update_missing_row:
  assumes "int64 n" and "n \<notin> set (ids db)" and "fs \<noteq> []"
    and "list_all (\<lambda>k. k \<in> set columns) (map fst fs)"
  shows "execute_update NoFault
           \<lparr>persisted = db, rows = db, new = [], deleted = [], is_active = True\<rparr> n fs
         = Inr \<lparr>persisted = db, rows = db, new = [], deleted = [], is_active = True\<rparr> \<and>
     update_book NoFault db n fs = (Inr True, db)"
proof -
  have "filter (\<lambda>r. id_col r = Some n) db = []"
    using assms(2) by (rule filter_id_absent)
  then have "\<forall>r \<in> set db. id_col r \<noteq> Some n"
    by (simp add: filter_empty_conv)
  then have same: "map (\<lambda>r. if id_col r = Some n then set_values fs r else r) db = db"
    by (simp add: map_idI)
  have "execute_update NoFault
           \<lparr>persisted = db, rows = db, new = [], deleted = [], is_active = True\<rparr> n fs
         = Inr \<lparr>persisted = db, rows = db, new = [], deleted = [], is_active = True\<rparr>"
    using assms(1,3,4) same by (simp add: execute_update_def)
  then show ?thesis
    using same update_NoFault [OF assms(3,4,1), of db] by simp
qed

theorem update_missing_row_witness:
  "int64 7 \<and> 7 \<notin> set (ids [dune]) \<and> [(''genre'', Some ''Epic'')] \<noteq> [] \<and>
   list_all (\<lambda>k. k \<in> set columns) (map fst [(''genre'', Some ''Epic'')]) \<and>
   update_book NoFault [dune] 7 [(''genre'', Some ''Epic'')] = (Inr True, [dune])"
proof -
  have h0: "int64 7" by (simp add: int64_def)
  have h1: "7 \<notin> set (ids [dune])" by (simp add: ids_def)
  have h2: "[(''genre'', Some ''Epic'')] \<noteq> []" by simp
  have h3: "list_all (\<lambda>k. k \<in> set columns) (map fst [(''genre'', Some ''Epic'')])"
    by (simp add: columns_def)
  show ?thesis
    using h0 h1 h2 h3 update_missing_row [OF h0 h1 h2 h3] by simp
qed

text \<open>
  Without the bound the statement fails: 2^63 matches no row of the table, the UPDATE
  raises at the bind, and \<open>update_book\<close> returns \<open>False\<close>.
\<close>

theorem update_missing_row_counterexample:
  "9223372036854775808 \<notin> set (ids [dune]) \<and>
   update_book NoFault [dune] 9223372036854775808 [(''genre'', Some ''Epic'')]
     = (Inr False, [dune])"
  by (simp add: ids_def update_book_def keyword_clash_def session_begin_rollback
      session_begin_def execute_update_def columns_def int64_def)

text \<open>
  C3. An update request through the route passes all three attributes to the
  repository, an attribute the request left out as \<open>None\<close>. With the engine answering
  and the id in the range of the key column, every row with the requested key ends
  with exactly the three values passed, so with NULL in each attribute that was left
  out; the other rows are as they were. For an id outside the range the statement
  raises at the bind, nothing is written and the route returns \<open>False\<close>.
\<close>

theorem api_update_book_writes_all:
  "api_update_book f db i t a g
     = update_book f db i [(''title'', t), (''author'', a), (''genre'', g)] \<and>
   api_update_book NoFault db i t a g
     = (if int64 i
        then (Inr True,
              map (\<lambda>r. if id_col r = Some i then r\<lparr>title := t, author := a, genre := g\<rparr> else r) db)
        else (Inr False, db))"
proof (cases "int64 i")
  case True
  then show ?thesis
    by (simp add: api_update_book_def update_NoFault columns_def set_values_def)
next
  case False
  then show ?thesis
    by (simp add: api_update_book_def update_book_def keyword_clash_def session_begin_rollback
        session_begin_def execute_update_def columns_def)
qed

section \<open>Deletion\<close>

text \<open>
  C6. Let \<open>b\<close> be the book that \<open>get_book_by_id\<close> returned for \<open>n\<close> on a table \<open>db0\<close>: it
  is the one row of \<open>db0\<close> with that key. With the engine answering, \<open>delete_book\<close> on
  \<open>b\<close> returns \<open>True\<close> and leaves of the table it finds exactly the rows with another
  key, each as it was and in the same order, and \<open>get_book_by_id\<close> on \<open>n\<close> then returns
  the absent book. On \<open>db0\<close> itself the call takes out the row \<open>b\<close> and nothing else.
\<close>

theorem delete_fetched:
  assumes "get_book_by_id NoFault db0 n = (Inr (Some b), db0)"
  shows "delete_book NoFault db (Some b) = (Inr True, filter (\<lambda>r. id_col r \<noteq> Some n) db) \<and>
     get_book_by_id NoFault (filter (\<lambda>r. id_col r \<noteq> Some n) db) n
       = (Inr None, filter (\<lambda>r. id_col r \<noteq> Some n) db) \<and>
     (\<exists>pre post. db0 = pre @ b # post \<and>
        delete_book NoFault db0 (Some b) = (Inr True, pre @ post))"
proof -
  let ?P = "\<lambda>r. id_col r = Some n"
  let ?Q = "\<lambda>r. id_col r \<noteq> Some n"
  have rng: "int64 n" and one: "filter ?P db0 = [b]"
    using get_Some_filter [OF assms] by simp_all
  then obtain pre post where split: "db0 = pre @ b # post"
    and pre: "\<forall>r \<in> set pre. \<not> ?P r" and b: "?P b" and post: "filter ?P post = []"
    by (auto simp: filter_eq_Cons_iff)
  have post': "\<forall>r \<in> set post. \<not> ?P r"
    using post by (simp add: filter_empty_conv)
  have d: "\<And>tbl. delete_book NoFault tbl (Some b) = (Inr True, filter ?Q tbl)"
    using delete_NoFault [OF b rng] by simp
  have "filter ?P (filter ?Q db) = []"
    by (simp add: filter_empty_conv)
  then have g: "get_book_by_id NoFault (filter ?Q db) n = (Inr None, filter ?Q db)"
    using rng by (simp add: get_NoFault one_or_none_def)
  have "filter ?Q db0 = pre @ post"
    using pre post' b by (simp add: split)
  then have "delete_book NoFault db0 (Some b) = (Inr True, pre @ post)"
    using d [of db0] by simp
  with split d [of db] g show ?thesis by blast
qed

theorem delete_fetched_witness:
  "get_book_by_id NoFault [dune, dune\<lparr>id_col := Some 2\<rparr>] 1
     = (Inr (Some dune), [dune, dune\<lparr>id_col := Some 2\<rparr>]) \<and>
   delete_book NoFault [dune, dune\<lparr>id_col := Some 2\<rparr>] (Some dune)
     = (Inr True, [dune\<lparr>id_col := Some 2\<rparr>]) \<and>
   get_book_by_id NoFault [dune\<lparr>id_col := Some 2\<rparr>] 1 = (Inr None, [dune\<lparr>id_col := Some 2\<rparr>])"
proof -
  have h: "get_book_by_id NoFault [dune, dune\<lparr>id_col := Some 2\<rparr>] 1
             = (Inr (Some dune), [dune, dune\<lparr>id_col := Some 2\<rparr>])"
    by (simp add: get_NoFault one_or_none_def int64_def)
  show ?thesis
    using h delete_fetched [OF h, of "[dune, dune\<lparr>id_col := Some 2\<rparr>]"] by simp
qed

text \<open>
  C10. \<open>delete_book\<close> never returns \<open>False\<close>. When the engine raises, an exception leaves
  \<open>delete_book\<close>, the table being the one before the call; the absent book raises as
  well, so the delete route raises for a key of the column that matches no row. Under
  the same faults \<open>create_book\<close> and \<open>update_book\<close> return \<open>False\<close>.
\<close>

theorem delete_book_propagates:
  "fst (delete_book f db book) \<noteq> Inr False \<and>
   (f \<noteq> NoFault \<longrightarrow> (\<exists>e. delete_book f db book = (Inl e, db))) \<and>
   delete_book f db None = (Inl UnmappedInstanceError, db) \<and>
   (int64 i \<and> i \<notin> set (ids db) \<longrightarrow>
      api_delete_book NoFault f db i = (Inl UnmappedInstanceError, db)) \<and>
   (f \<noteq> NoFault \<longrightarrow> create_book f k db t a g = (Inr False, db)) \<and>
   (f \<noteq> NoFault \<and> \<not> keyword_clash fs \<longrightarrow> update_book f db i fs = (Inr False, db))"
proof -
  have 1: "fst (delete_book f db book) \<noteq> Inr False"
    by (auto simp: delete_book_def split: prod.splits sum.splits)
  have 2: "f \<noteq> NoFault \<longrightarrow> (\<exists>e. delete_book f db book = (Inl e, db))"
    by (cases f; cases book)
       (auto simp: delete_book_def session_begin_def delete_def flush_def split: option.splits)
  have 4: "int64 i \<and> i \<notin> set (ids db) \<longrightarrow>
      api_delete_book NoFault f db i = (Inl UnmappedInstanceError, db)"
    by (simp add: api_delete_book_def get_NoFault filter_id_absent one_or_none_def delete_None)
  have 5: "f \<noteq> NoFault \<longrightarrow> create_book f k db t a g = (Inr False, db)"
    by (simp add: create_book_eq)
  show ?thesis using 1 2 4 5 delete_None update_fault by blast
qed

theorem delete_book_propagates_witness:
  "fst (delete_book StatementFault [dune] (Some dune)) \<noteq> Inr False \<and>
   StatementFault \<noteq> NoFault \<and>
   delete_book StatementFault [dune] (Some dune) = (Inl OperationalError, [dune]) \<and>
   delete_book StatementFault [dune] None = (Inl UnmappedInstanceError, [dune]) \<and>
   int64 7 \<and> 7 \<notin> set (ids [dune]) \<and>
   api_delete_book NoFault StatementFault [dune] 7 = (Inl UnmappedInstanceError, [dune]) \<and>
   create_book StatementFault 0 [dune] ''Emma'' ''Austen'' ''Novel'' = (Inr False, [dune]) \<and>
   \<not> keyword_clash [(''genre'', None)] \<and>
   update_book StatementFault [dune] 7 [(''genre'', None)] = (Inr False, [dune])"
proof -
  have h0: "int64 7" by (simp add: int64_def)
  have h1: "7 \<notin> set (ids [dune])" by (simp add: ids_def)
  have h2: "\<not> keyword_clash [(''genre'', None)]" by (simp add: keyword_clash_def)
  have d: "delete_book StatementFault [dune] (Some dune) = (Inl OperationalError, [dune])"
    by (simp add: delete_book_def session_begin_def delete_def flush_def)
  show ?thesis
    using h0 h1 h2 d
      delete_book_propagates [of StatementFault "[dune]" "Some dune" 7 0 "''Emma''" "''Austen''"
        "''Novel''" "[(''genre'', None)]"]
    by simp
qed

section \<open>Engine handles over the life of the process\<close>

lemma request_funpow:
  "(request repo ^^ n) p = p\<lparr>used := used p @ replicate n (engine repo)\<rparr>"
proof (induction n)
  case 0
  then show ?case by simp
next
  case (Suc n)
  then show ?case by (simp add: request_def replicate_append_same)
qed

text \<open>
  C9, evaluated on the code. Over a process lifetime with \<open>n\<close> requests three engine
  handles are created: handle 0 by the repository of the routes, which serves every
  request; handle 1 at startup, on which the schema is created; handle 2 at shutdown,
  which is the one disposed. The handle that served the requests is not disposed.
\<close>

theorem lifespan_handles:
  "engine (fst (process_lifetime n)) = 0 \<and>
   engines (snd (process_lifetime n)) = 3 \<and>
   schema_on (snd (process_lifetime n)) = [1] \<and>
   used (snd (process_lifetime n)) = replicate n 0 \<and>
   disposed (snd (process_lifetime n)) = [2]"
  by (simp add: process_lifetime_def Api_init_def BookRepository_init_def lifespan_startup_def
      lifespan_shutdown_def create_table_def close_def request_funpow)

section \<open>The bound on operations inside the semaphore\<close>

lemma step_gate:
  assumes "step s e = Some s'"
  shows "permits s' + length (running s') = permits s + length (running s)"
proof (cases e)
  case (Call t c)
  then show ?thesis using assms by (auto split: if_splits)
next
  case (Acquire t)
  then show ?thesis using assms by (auto simp: acquire_def split: option.splits if_splits)
next
  case (Exit t f k)
  then obtain c where c: "map_of (running s) t = Some c"
    using assms by (auto split: option.splits)
  then have "(t, c) \<in> set (running s)" by (rule map_of_SomeD)
  then have "length (remove1 (t, c) (running s)) + 1 = length (running s)"
    by (simp add: length_remove1) (metis length_pos_if_in_set Suc_pred)
  then show ?thesis using assms Exit c by (auto simp: release_def split: prod.splits)
qed

lemma exec_gate:
  "exec s es = Some s' \<Longrightarrow> permits s' + length (running s') = permits s + length (running s)"
proof (induction es arbitrary: s)
  case Nil
  then show ?case by simp
next
  case (Cons e es)
  then obtain s1 where s1: "step s e = Some s1" and rest: "exec s1 es = Some s'"
    by (auto split: option.splits)
  show ?case using Cons.IH [OF rest] step_gate [OF s1] by simp
qed

text \<open>
  C1. Take the semaphore of a newly built repository and any sequence of calls of the
  five operations, acquisitions and exits, by any number of callers. In every state
  the sequence reaches, each operation inside its \<^verbatim>\<open>async with self.semaphore\<close> block
  holds one permit and no other permit is out: the free permits and the running
  operations add up to 50, whatever the exits before were (a return, \<open>False\<close>, or an
  exception). So at most 50 operations are running.
\<close>

theorem gate_bound:
  assumes "exec (init (fst (BookRepository_init p)) db) es = Some s"
  shows "permits s + length (running s) = 50 \<and> length (running s) \<le> 50"
  using exec_gate [OF assms] by (simp add: init_def BookRepository_init_def)

theorem gate_bound_witness:
  "\<exists>s. exec (init (fst (BookRepository_init \<lparr>engines = 0, schema_on = [], used = [], disposed = []\<rparr>)) [])
          [Call (1::nat) (CreateBook ''Dune'' ''Herbert'' ''SciFi''), Call 2 GetBooks, Call 3 (DeleteBook None),
           Acquire 1, Acquire 3, Acquire 2, Exit 3 NoFault 0, Exit 1 CommitFault 0] = Some s \<and>
        length (running s) = 1 \<and>
        permits s + length (running s) = 50 \<and> length (running s) \<le> 50"
proof -
  let ?s0 = "init (fst (BookRepository_init \<lparr>engines = 0, schema_on = [], used = [], disposed = []\<rparr>)) []
               :: nat system"
  let ?es = "[Call (1::nat) (CreateBook ''Dune'' ''Herbert'' ''SciFi''), Call 2 GetBooks,
              Call 3 (DeleteBook None), Acquire 1, Acquire 3, Acquire 2, Exit 3 NoFault 0,
              Exit 1 CommitFault 0]"
  have "\<exists>s. exec ?s0 ?es = Some s \<and> length (running s) = 1"
    by (simp add: init_def BookRepository_init_def acquire_def release_def returning_def
        create_book_eq delete_None)
  then obtain s where h: "exec ?s0 ?es = Some s" and r: "length (running s) = 1"
    by blast
  show ?thesis using h r gate_bound [OF h] by blast
qed

end
